theory Spec2Isabelle
  imports Main "HOL-Library.Sublist"
begin

section \<open>Retrieval-augmented question answering: the notebook's two functions\<close>

text \<open>
  The notebook \<^verbatim>\<open>RAG-and-embeddings-solution.ipynb\<close> defines two functions,
  \<^verbatim>\<open>retrieve_texts\<close> and \<^verbatim>\<open>answer_query\<close>. Both are embedded below, statement by
  statement. The three external collaborators are parameters of the model:
  \<^item> \<^verbatim>\<open>model.encode\<close> (the sentence embedder) is a function from a list of strings to an
    opaque embedding \<open>'v\<close>;
  \<^item> \<^verbatim>\<open>index.search\<close> (the vector index) is a function from the index, an embedding and
    \<open>k\<close> to either a fault or a pair of two-dimensional arrays (distances, positions) of
    an opaque distance type \<open>'d\<close> and of integers, together with the index as the call
    leaves it;
  \<^item> \<^verbatim>\<open>client.chat.completions.create\<close> (the remote chat-completion service) is a
    function from the API key and the request to a completion.
  The faults the notebook's own statements can raise (indexing a list out of range) and
  the faults the search call raises (the FAISS search asserts \<open>k > 0\<close> and that the
  embedding has the dimension of the index) are values of \<open>error\<close>; nothing in the
  notebook catches a fault, so each one ends the function that meets it. Faults raised
  inside the embedder and the remote service are outside the model.
\<close>

subsection \<open>Python values\<close>

datatype error = IndexError | AssertionError

text \<open>
  \<^verbatim>\<open>xs[i]\<close> on a Python list: a non-negative index below the length reads from the front,
  a negative index down to \<open>- len(xs)\<close> reads from the back, anything else raises
  \<^verbatim>\<open>IndexError\<close>. The positions the index search reports are 64-bit signed integers
  that are only compared and used as subscripts, so they are modelled as \<open>int\<close>.
\<close>

definition py_getitem :: "'a list \<Rightarrow> int \<Rightarrow> error + 'a" where
  "py_getitem xs i =
     (if 0 \<le> i
      then (if i < int (length xs) then Inr (xs ! nat i) else Inl IndexError)
      else (if - int (length xs) \<le> i then Inr (xs ! nat (int (length xs) + i))
            else Inl IndexError))"

text \<open>
  A list comprehension \<^verbatim>\<open>[f(i) for i in xs]\<close> whose body may raise: elements are
  evaluated left to right and the first fault ends the comprehension.
\<close>

fun list_comp :: "('a \<Rightarrow> error + 'b) \<Rightarrow> 'a list \<Rightarrow> error + 'b list" where
  "list_comp f [] = Inr []"
| "list_comp f (x # xs) =
     (case f x of
        Inl e \<Rightarrow> Inl e
      | Inr y \<Rightarrow> (case list_comp f xs of Inl e \<Rightarrow> Inl e | Inr ys \<Rightarrow> Inr (y # ys)))"

text \<open>\<^verbatim>\<open>sep.join(xs)\<close> on strings. Strings are byte strings (\<open>char list\<close>).\<close>

fun join :: "string \<Rightarrow> string list \<Rightarrow> string" where
  "join sep [] = []"
| "join sep [x] = x"
| "join sep (x # y # ys) = x @ sep @ join sep (y # ys)"

subsection \<open>The chat-completion interface\<close>

record message =
  role :: string
  content :: string

record chat_request =
  messages :: "message list"
  model :: string

record choice =
  message :: message

record chat_completion =
  choices :: "choice list"

subsection \<open>The process state\<close>

text \<open>
  The two objects loaded once at start-up and passed by reference to both functions (the
  vector index and the ordered chunk collection), and the log of requests sent to the
  remote chat-completion service.
\<close>

record 'idx store =
  index :: 'idx
  token_split_texts :: "string list"
  requests :: "chat_request list"

subsection \<open>\<^verbatim>\<open>retrieve_texts\<close>\<close>

text \<open>
  \<^verbatim>\<open>
  def retrieve_texts(query, k, index, token_split_texts, model):
      query_embedding = model.encode([query], convert_to_numpy=True)
      distances, indices = index.search(query_embedding, k)
      # Filter out-of-bounds indices
      valid_indices = [i for i in indices[0] if i < len(token_split_texts)]
      retrieved_texts = [token_split_texts[i] for i in valid_indices]
      return retrieved_texts, distances
  \<close>
  \<open>search\<close> is \<^verbatim>\<open>index.search\<close> and \<open>encode\<close> is \<^verbatim>\<open>model.encode\<close>; the index
  and the chunk collection are read from the store. A fault of the search call leaves
  \<^verbatim>\<open>retrieve_texts\<close> at once.
\<close>

definition retrieve_texts ::
  "string \<Rightarrow> int \<Rightarrow> ('idx \<Rightarrow> 'v \<Rightarrow> int \<Rightarrow> (error + 'd list list \<times> int list list) \<times> 'idx) \<Rightarrow>
   (string list \<Rightarrow> 'v) \<Rightarrow> 'idx store \<Rightarrow> (error + string list \<times> 'd list list) \<times> 'idx store" where
  "retrieve_texts query k search encode s =
     (let query_embedding = encode [query] in
      case search (index s) query_embedding k of
        (searched, index') \<Rightarrow>
          (let s' = s\<lparr>index := index'\<rparr> in
           case searched of
             Inl e \<Rightarrow> (Inl e, s')
           | Inr (distances, indices) \<Rightarrow>
               (case indices of
                  [] \<Rightarrow> (Inl IndexError, s')
                | row # _ \<Rightarrow>
                    (let valid_indices =
                           filter (\<lambda>i. i < int (length (token_split_texts s'))) row in
                     case list_comp (py_getitem (token_split_texts s')) valid_indices of
                       Inl e \<Rightarrow> (Inl e, s')
                     | Inr retrieved_texts \<Rightarrow> (Inr (retrieved_texts, distances), s')))))"

subsection \<open>\<^verbatim>\<open>answer_query\<close>\<close>

text \<open>
  \<^verbatim>\<open>
  def answer_query(query, k, index, texts, groq_api_key):
      retrieved_texts, _ = retrieve_texts(query, k, index, texts, model)
      context = "\n\n".join(retrieved_texts)
      prompt = (
          "Answer the following question using the provided context. "
          "Explain it as if you are explaining it to a 5 year old.\n\n"
          f"Context:\n{context}\n\n"
          f"Question: {query}\nAnswer:"
      )
      client = Groq(api_key=groq_api_key)
      messages = [{"role": "system", "content": prompt}]
      llm = client.chat.completions.create(
          messages=messages,
          model="llama-3.3-70b-versatile"
      )
      answer = llm.choices[0].message.content
      return answer
  \<close>
  The two string-building statements are definitions of their own, named after the
  variables they bind (\<open>context_block\<close> for \<^verbatim>\<open>context\<close>, which is a keyword here);
  \<open>create\<close> is the remote call made through the client built from the API key, and
  every call of it is appended to the request log of the store.
\<close>

definition context_block :: "string list \<Rightarrow> string" where
  "context_block retrieved_texts = join [CHR 0x0A, CHR 0x0A] retrieved_texts"

definition prompt :: "string \<Rightarrow> string \<Rightarrow> string" where
  "prompt context query =
     ''Answer the following question using the provided context. '' @
     ''Explain it as if you are explaining it to a 5 year old.'' @ [CHR 0x0A, CHR 0x0A] @
     ''Context:'' @ [CHR 0x0A] @ context @ [CHR 0x0A, CHR 0x0A] @
     ''Question: '' @ query @ [CHR 0x0A] @ ''Answer:''"

definition answer_query ::
  "(string list \<Rightarrow> 'v) \<Rightarrow> (string \<Rightarrow> chat_request \<Rightarrow> chat_completion) \<Rightarrow>
   string \<Rightarrow> int \<Rightarrow> ('idx \<Rightarrow> 'v \<Rightarrow> int \<Rightarrow> (error + 'd list list \<times> int list list) \<times> 'idx) \<Rightarrow>
   string \<Rightarrow> 'idx store \<Rightarrow> (error + string) \<times> 'idx store" where
  "answer_query encode create query k search groq_api_key s =
     (case retrieve_texts query k search encode s of
        (Inl e, s') \<Rightarrow> (Inl e, s')
      | (Inr (retrieved_texts, _), s') \<Rightarrow>
          (let context = context_block retrieved_texts;
               messages = [\<lparr>role = ''system'', content = prompt context query\<rparr>];
               request = \<lparr>messages = messages, model = ''llama-3.3-70b-versatile''\<rparr>;
               llm = create groq_api_key request;
               s'' = s'\<lparr>requests := requests s' @ [request]\<rparr>
           in case choices llm of
                [] \<Rightarrow> (Inl IndexError, s'')
              | c # _ \<Rightarrow> (Inr (content (message c)), s'')))"

section \<open>Properties\<close>

subsection \<open>Helper lemmas\<close>

lemma list_comp_Inr_iff: "list_comp f xs = Inr ys \<longleftrightarrow> map f xs = map Inr ys"
proof (induction xs arbitrary: ys)
  case Nil
  then show ?case by auto
next
  case (Cons x xs)
  show ?case
  proof (cases "f x")
    case (Inl e)
    then show ?thesis by (cases ys) auto
  next
    case (Inr y)
    show ?thesis
    proof (cases ys)
      case Nil
      then show ?thesis using Inr by (simp split: sum.splits)
    next
      case (Cons z zs)
      have "list_comp f xs = Inr zs \<longleftrightarrow> map f xs = map Inr zs" by (rule Cons.IH)
      then show ?thesis using Inr Cons by (auto split: sum.splits)
    qed
  qed
qed

lemma list_comp_length: "list_comp f xs = Inr ys \<Longrightarrow> length ys = length xs"
  unfolding list_comp_Inr_iff by (rule map_eq_imp_length_eq [symmetric])

lemma list_comp_list_all2:
  "list_comp f xs = Inr ys \<Longrightarrow> list_all2 (\<lambda>y x. f x = Inr y) ys xs"
  unfolding list_comp_Inr_iff
  by (induction xs arbitrary: ys) auto

lemma list_all2_restrict:
  "list_all2 P xs ys \<Longrightarrow> \<forall>y\<in>set ys. Q y \<Longrightarrow> list_all2 (\<lambda>x y. Q y \<and> P x y) xs ys"
  by (induction rule: list_all2_induct) auto

lemma retrieve_texts_result:
  assumes "search (index s) (encode [query]) k = (Inr (distances, row # rest), idx')"
  shows "fst (retrieve_texts query k search encode s) =
           (case list_comp (py_getitem (token_split_texts s))
                   (filter (\<lambda>i. i < int (length (token_split_texts s))) row) of
              Inl e \<Rightarrow> Inl e
            | Inr retrieved_texts \<Rightarrow> Inr (retrieved_texts, distances))"
  using assms by (simp add: retrieve_texts_def split: sum.splits)

lemma retrieve_texts_Inr:
  assumes "search (index s) (encode [query]) k = (Inr (distances, row # rest), idx')"
      and "fst (retrieve_texts query k search encode s) = Inr (chunks, ds)"
  shows "ds = distances"
    and "list_comp (py_getitem (token_split_texts s))
           (filter (\<lambda>i. i < int (length (token_split_texts s))) row) = Inr chunks"
  using assms(2)
  unfolding retrieve_texts_result [where search = search and encode = encode, OF assms(1)]
  by (auto split: sum.splits)

lemma retrieve_texts_store:
  "snd (retrieve_texts query k search encode s) =
     s\<lparr>index := snd (search (index s) (encode [query]) k)\<rparr>"
  by (simp add: retrieve_texts_def Let_def split: prod.splits list.splits sum.splits)

lemma py_getitem_position:
  assumes "py_getitem xs i = Inr c"
  shows "\<exists>p<length xs. int p = (if i < 0 then int (length xs) + i else i) \<and> c = xs ! p"
proof (cases "0 \<le> i")
  case True
  with assms have "i < int (length xs)" "c = xs ! nat i"
    by (auto simp: py_getitem_def split: if_splits)
  with True show ?thesis by (intro exI [of _ "nat i"]) auto
next
  case False
  with assms have "- int (length xs) \<le> i" "c = xs ! nat (int (length xs) + i)"
    by (auto simp: py_getitem_def split: if_splits)
  with False show ?thesis by (intro exI [of _ "nat (int (length xs) + i)"]) auto
qed

subsection \<open>The bounds filter\<close>

text \<open>
  Claim C1 says that a position is looked up if and only if it lies in \<open>0 \<le> i < len\<close>, and
  that any other position is dropped without a fault and without resolving to another
  chunk. The filter only tests \<open>i < len\<close>: with two chunks, a reported position \<open>-1\<close>
  (what the index reports for a missing neighbour) passes the filter and resolves to the
  last chunk, and a reported position \<open>-3\<close> passes the filter and raises
  \<^verbatim>\<open>IndexError\<close>.
\<close>

theorem retrieve_texts_negative_position:
  "fst (retrieve_texts ''q'' 1 (\<lambda>idx v k. (Inr ([[0::nat]], [[- 1]]), idx)) (\<lambda>qs. ())
          \<lparr>index = (), token_split_texts = [''a'', ''b''], requests = []\<rparr>)
     = Inr ([''b''], [[0]]) \<and>
   fst (retrieve_texts ''q'' 1 (\<lambda>idx v k. (Inr ([[0::nat]], [[- 3]]), idx)) (\<lambda>qs. ())
          \<lparr>index = (), token_split_texts = [''a'', ''b''], requests = []\<rparr>)
     = Inl IndexError"
  by (simp add: retrieve_texts_def py_getitem_def)

subsection \<open>The bounds of the result\<close>

text \<open>
  Claim C2. Whenever the index search reports at most \<open>k\<close> positions for the query and
  \<^verbatim>\<open>retrieve_texts\<close> returns, it returns at most \<open>k\<close> chunks, and every returned chunk
  is the element of the chunk collection at a position \<open>p\<close> strictly below the size of the
  collection; the reported position \<open>i\<close> it was read through is itself below the size
  (\<open>p\<close> is \<open>i\<close>, or \<open>i\<close> counted from the end when \<open>i\<close> is negative).
\<close>

theorem retrieve_texts_at_most_k:
  assumes "search (index s) (encode [query]) k = (Inr (distances, row # rest), idx')"
      and "int (length row) \<le> k"
      and "fst (retrieve_texts query k search encode s) = Inr (chunks, ds)"
  shows "int (length chunks) \<le> k \<and>
         list_all2
           (\<lambda>c i. i < int (length (token_split_texts s)) \<and>
                  (\<exists>p<length (token_split_texts s).
                      int p = (if i < 0 then int (length (token_split_texts s)) + i else i) \<and>
                      c = token_split_texts s ! p))
           chunks (filter (\<lambda>i. i < int (length (token_split_texts s))) row)"
proof -
  let ?texts = "token_split_texts s"
  let ?valid = "filter (\<lambda>i. i < int (length ?texts)) row"
  have lc: "list_comp (py_getitem ?texts) ?valid = Inr chunks"
    by (rule retrieve_texts_Inr(2) [where search = search and encode = encode, OF assms(1) assms(3)])
  have "length chunks = length ?valid" by (rule list_comp_length [OF lc])
  also have "\<dots> \<le> length row" by (rule length_filter_le)
  finally have "int (length chunks) \<le> k" using assms(2) by linarith
  moreover have "list_all2 (\<lambda>c i. py_getitem ?texts i = Inr c) chunks ?valid"
    by (rule list_comp_list_all2 [OF lc])
  then have "list_all2 (\<lambda>c i. i < int (length ?texts) \<and> py_getitem ?texts i = Inr c) chunks ?valid"
    by (rule list_all2_restrict) simp
  then have "list_all2
           (\<lambda>c i. i < int (length ?texts) \<and>
                  (\<exists>p<length ?texts.
                      int p = (if i < 0 then int (length ?texts) + i else i) \<and> c = ?texts ! p))
           chunks ?valid"
  proof (rule list_all2_mono)
    fix c i
    assume "i < int (length ?texts) \<and> py_getitem ?texts i = Inr c"
    then show "i < int (length ?texts) \<and>
               (\<exists>p<length ?texts.
                   int p = (if i < 0 then int (length ?texts) + i else i) \<and> c = ?texts ! p)"
      using py_getitem_position [of ?texts i c] by blast
  qed
  ultimately show ?thesis by simp
qed

theorem retrieve_texts_at_most_k_witness:
  "fst (retrieve_texts ''q'' 3 (\<lambda>idx v k. (Inr ([[1::nat, 2, 3]], [[1, 5, 0]]), idx)) (\<lambda>qs. ())
         \<lparr>index = (), token_split_texts = [''a'', ''b''], requests = []\<rparr>)
     = Inr ([''b'', ''a''], [[1, 2, 3]]) \<and>
   int (length [''b'', ''a'']) \<le> 3 \<and>
   list_all2 (\<lambda>c i. i < 2 \<and> (\<exists>p<2. int p = (if i < 0 then 2 + i else i) \<and> c = [''a'', ''b''] ! p))
     [''b'', ''a''] [1, 0]"
proof -
  let ?search = "\<lambda>(idx::unit) (v::unit) (k::int). (Inr ([[1::nat, 2, 3]], [[1::int, 5, 0]]) :: error + _, idx)"
  let ?s = "\<lparr>index = (), token_split_texts = [''a'', ''b''], requests = []\<rparr>"
  have h1: "?search (index ?s) ((\<lambda>qs. ()) [''q'']) 3 = (Inr ([[1, 2, 3]], [1, 5, 0] # []), ())"
    by simp
  have h2: "int (length [1::int, 5, 0]) \<le> 3" by simp
  have h3: "fst (retrieve_texts ''q'' 3 ?search (\<lambda>qs. ()) ?s) = Inr ([''b'', ''a''], [[1, 2, 3]])"
    by (simp add: retrieve_texts_def py_getitem_def)
  from retrieve_texts_at_most_k [OF h1 h2 h3] h3 show ?thesis by simp
qed

subsection \<open>Retrieval with \<open>k = 0\<close>\<close>

text \<open>
  Claim C7 says that for \<open>k = 0\<close> the function returns an empty list of chunks. The
  function has no case of its own for \<open>k\<close>: it hands \<open>k\<close> to the index search and goes
  on with what the search reports. The search of a FAISS index asserts \<open>k > 0\<close>, so with
  such an index and \<open>k = 0\<close> the call raises \<^verbatim>\<open>AssertionError\<close> and returns no list.
\<close>

theorem retrieve_texts_k_zero_raises:
  "fst (retrieve_texts ''q'' 0
          (\<lambda>idx v k. (if 0 < k then Inr ([[1::nat]], [[0]]) else Inl AssertionError, idx))
          (\<lambda>qs. ())
          \<lparr>index = (), token_split_texts = [''a'', ''b''], requests = []\<rparr>)
     = Inl AssertionError"
  by (simp add: retrieve_texts_def)

text \<open>
  Claim C7 as amended. For \<open>k = 0\<close>: when the index search raises, \<^verbatim>\<open>retrieve_texts\<close>
  raises the same fault and returns nothing; when the index search returns and reports
  at most \<open>k\<close> positions for the query, \<^verbatim>\<open>retrieve_texts\<close> returns, and the list of
  chunks it returns is empty.
\<close>

theorem retrieve_texts_k_zero:
  assumes "k = 0"
  shows "(\<forall>e idx'. search (index s) (encode [query]) k = (Inl e, idx') \<longrightarrow>
            fst (retrieve_texts query k search encode s) = Inl e) \<and>
         (\<forall>distances row rest idx'.
            search (index s) (encode [query]) k = (Inr (distances, row # rest), idx') \<and>
            int (length row) \<le> k \<longrightarrow>
            fst (retrieve_texts query k search encode s) = Inr ([], distances))"
proof (intro conjI allI impI)
  fix e idx'
  assume "search (index s) (encode [query]) k = (Inl e, idx')"
  then show "fst (retrieve_texts query k search encode s) = Inl e"
    by (simp add: retrieve_texts_def)
next
  fix distances row rest idx'
  assume h: "search (index s) (encode [query]) k = (Inr (distances, row # rest), idx') \<and>
             int (length row) \<le> k"
  with assms have "row = []" by simp
  with h show "fst (retrieve_texts query k search encode s) = Inr ([], distances)"
    using retrieve_texts_result [where search = search and encode = encode and row = row]
    by simp
qed

theorem retrieve_texts_k_zero_witness:
  "fst (retrieve_texts ''q'' 0
          (\<lambda>idx v k. (if 0 < k then Inr ([[1::nat, 2]], [[1, 0]]) else Inl AssertionError, idx))
          (\<lambda>qs. ())
          \<lparr>index = (), token_split_texts = [''a'', ''b''], requests = []\<rparr>)
     = Inl AssertionError \<and>
   fst (retrieve_texts ''q'' 0 (\<lambda>idx v k. (Inr ([[]::nat list], [[]]), idx)) (\<lambda>qs. ())
          \<lparr>index = (), token_split_texts = [''a'', ''b''], requests = []\<rparr>)
     = Inr ([], [[]])"
proof -
  let ?asserting = "\<lambda>(idx::unit) (v::unit) (k::int).
      (if 0 < k then Inr ([[1::nat, 2]], [[1::int, 0]]) else Inl AssertionError, idx)"
  let ?accepting = "\<lambda>(idx::unit) (v::unit) (k::int).
      (Inr ([[]::nat list], [[]::int list]) :: error + _, idx)"
  let ?s = "\<lparr>index = (), token_split_texts = [''a'', ''b''], requests = []\<rparr>"
  have k: "(0::int) = 0" by simp
  have raised: "?asserting (index ?s) ((\<lambda>qs. ()) [''q'']) 0 = (Inl AssertionError, ())"
    by simp
  have reported: "?accepting (index ?s) ((\<lambda>qs. ()) [''q'']) 0 = (Inr ([[]], [] # []), ()) \<and>
                  int (length ([]::int list)) \<le> 0"
    by simp
  from retrieve_texts_k_zero [where search = ?asserting and encode = "\<lambda>qs. ()" and s = ?s
      and query = "''q''", OF k] raised
  have first: "fst (retrieve_texts ''q'' 0 ?asserting (\<lambda>qs. ()) ?s) = Inl AssertionError"
    by blast
  from retrieve_texts_k_zero [where search = ?accepting and encode = "\<lambda>qs. ()" and s = ?s
      and query = "''q''", OF k] reported
  have second: "fst (retrieve_texts ''q'' 0 ?accepting (\<lambda>qs. ()) ?s) = Inr ([], [[]])"
    by blast
  from first second show ?thesis by (rule conjI)
qed

subsection \<open>The order of the result\<close>

lemma filter_snd_zip:
  assumes "length ds = length is"
  shows "map snd (filter (\<lambda>(d, i). P i) (zip ds is)) = filter P is"
proof -
  have "map snd (filter (\<lambda>(d, i). P i) (zip ds is)) = filter P (map snd (zip ds is))"
    by (simp add: filter_map comp_def case_prod_unfold)
  also have "\<dots> = filter P is" using assms by simp
  finally show ?thesis .
qed

text \<open>
  Claim C3. The index search reports a row of distances and a row of positions of the
  same length; entry \<open>j\<close> of one belongs to entry \<open>j\<close> of the other. The pairs the bounds
  filter keeps are a subsequence of the reported pairs, the returned chunks are the
  lookups of the kept positions one by one in that order, and when the reported distances
  are sorted by any relation \<open>le\<close>, so are the distances of the returned chunks.
\<close>

theorem retrieve_texts_order:
  assumes "search (index s) (encode [query]) k = (Inr (drow # drest, irow # irest), idx')"
      and "length drow = length irow"
      and "fst (retrieve_texts query k search encode s) = Inr (chunks, ds)"
  shows "subseq (filter (\<lambda>(d, i). i < int (length (token_split_texts s))) (zip drow irow))
           (zip drow irow) \<and>
         list_all2 (\<lambda>c (d, i). py_getitem (token_split_texts s) i = Inr c) chunks
           (filter (\<lambda>(d, i). i < int (length (token_split_texts s))) (zip drow irow)) \<and>
         (sorted_wrt le drow \<longrightarrow>
            sorted_wrt le
              (map fst (filter (\<lambda>(d, i). i < int (length (token_split_texts s)))
                 (zip drow irow))))"
proof -
  let ?texts = "token_split_texts s"
  let ?kept = "filter (\<lambda>(d, i). i < int (length ?texts)) (zip drow irow)"
  have lc: "list_comp (py_getitem ?texts) (filter (\<lambda>i. i < int (length ?texts)) irow) = Inr chunks"
    by (rule retrieve_texts_Inr(2) [where search = search and encode = encode, OF assms(1) assms(3)])
  have "list_all2 (\<lambda>c i. py_getitem ?texts i = Inr c) chunks (map snd ?kept)"
    unfolding filter_snd_zip [OF assms(2)] by (rule list_comp_list_all2 [OF lc])
  then have looked: "list_all2 (\<lambda>c (d, i). py_getitem ?texts i = Inr c) chunks ?kept"
    by (simp add: list_all2_map2 case_prod_unfold)
  have sorted: "sorted_wrt le (map fst ?kept)" if "sorted_wrt le drow"
  proof -
    from that assms(2) have "sorted_wrt le (map fst (zip drow irow))" by simp
    then have "sorted_wrt (\<lambda>x y. le (fst x) (fst y)) (zip drow irow)"
      by (simp add: sorted_wrt_map)
    then have "sorted_wrt (\<lambda>x y. le (fst x) (fst y)) ?kept"
      by (rule sorted_wrt_filter)
    then show ?thesis by (simp add: sorted_wrt_map)
  qed
  from looked sorted show ?thesis by simp
qed

theorem retrieve_texts_order_witness:
  "fst (retrieve_texts ''q'' 3 (\<lambda>idx v k. (Inr ([[1::nat, 2, 3]], [[1, 5, 0]]), idx)) (\<lambda>qs. ())
         \<lparr>index = (), token_split_texts = [''a'', ''b''], requests = []\<rparr>)
     = Inr ([''b'', ''a''], [[1, 2, 3]]) \<and>
   subseq [(1::nat, 1::int), (3, 0)] [(1, 1), (2, 5), (3, 0)] \<and>
   list_all2 (\<lambda>c (d, i). py_getitem [''a'', ''b''] i = Inr c) [''b'', ''a'']
     [(1::nat, 1), (3, 0)] \<and>
   sorted_wrt (\<le>) [1::nat, 2, 3] \<and> sorted_wrt (\<le>) (map fst [(1::nat, 1::int), (3, 0)])"
proof -
  let ?search = "\<lambda>(idx::unit) (v::unit) (k::int). (Inr ([[1::nat, 2, 3]], [[1::int, 5, 0]]) :: error + _, idx)"
  let ?s = "\<lparr>index = (), token_split_texts = [''a'', ''b''], requests = []\<rparr>"
  have h1: "?search (index ?s) ((\<lambda>qs. ()) [''q'']) 3 = (Inr ([1, 2, 3] # [], [1, 5, 0] # []), ())"
    by simp
  have h2: "length [1::nat, 2, 3] = length [1::int, 5, 0]" by simp
  have h3: "fst (retrieve_texts ''q'' 3 ?search (\<lambda>qs. ()) ?s) = Inr ([''b'', ''a''], [[1, 2, 3]])"
    by (simp add: retrieve_texts_def py_getitem_def)
  have h4: "sorted_wrt (\<le>) [1::nat, 2, 3]" by simp
  from retrieve_texts_order [where search = ?search and encode = "\<lambda>qs. ()" and le = "(\<le>)",
      OF h1 h2 h3] h3 h4
  show ?thesis by simp
qed

subsection \<open>The distances are returned as reported\<close>

text \<open>
  Claim C10. The second component of the result is the distance array exactly as the
  index search reported it. When the bounds filter drops at least one reported position,
  there are strictly fewer returned chunks than distance entries, both in the row of the
  query and in the whole array.
\<close>

theorem retrieve_texts_distances_unfiltered:
  assumes "search (index s) (encode [query]) k = (Inr (drow # drest, irow # irest), idx')"
      and "length drow = length irow"
      and "fst (retrieve_texts query k search encode s) = Inr (chunks, ds)"
  shows "ds = drow # drest \<and>
         ((\<exists>i\<in>set irow. \<not> i < int (length (token_split_texts s))) \<longrightarrow>
            length chunks < length drow \<and> length chunks < length (concat ds))"
proof -
  let ?texts = "token_split_texts s"
  let ?valid = "filter (\<lambda>i. i < int (length ?texts)) irow"
  have ds: "ds = drow # drest"
    by (rule retrieve_texts_Inr(1) [where search = search and encode = encode, OF assms(1) assms(3)])
  have lc: "list_comp (py_getitem ?texts) ?valid = Inr chunks"
    by (rule retrieve_texts_Inr(2) [where search = search and encode = encode, OF assms(1) assms(3)])
  have len: "length chunks = length ?valid" by (rule list_comp_length [OF lc])
  have "length chunks < length drow \<and> length chunks < length (concat ds)"
    if "\<exists>i\<in>set irow. \<not> i < int (length ?texts)"
  proof -
    from that obtain i where "i \<in> set irow" and "\<not> i < int (length ?texts)" by blast
    then have "length ?valid < length irow" by (rule length_filter_less)
    with len assms(2) have "length chunks < length drow" by simp
    moreover have "length drow \<le> length (concat ds)" unfolding ds by simp
    ultimately show ?thesis by simp
  qed
  with ds show ?thesis by blast
qed

theorem retrieve_texts_distances_unfiltered_witness:
  "fst (retrieve_texts ''q'' 3 (\<lambda>idx v k. (Inr ([[1::nat, 2, 3]], [[1, 5, 0]]), idx)) (\<lambda>qs. ())
         \<lparr>index = (), token_split_texts = [''a'', ''b''], requests = []\<rparr>)
     = Inr ([''b'', ''a''], [[1, 2, 3]]) \<and>
   (\<exists>i\<in>set [1::int, 5, 0]. \<not> i < 2) \<and>
   length [''b'', ''a''] < length [1::nat, 2, 3] \<and>
   length [''b'', ''a''] < length (concat [[1::nat, 2, 3]])"
proof -
  let ?search = "\<lambda>(idx::unit) (v::unit) (k::int). (Inr ([[1::nat, 2, 3]], [[1::int, 5, 0]]) :: error + _, idx)"
  let ?s = "\<lparr>index = (), token_split_texts = [''a'', ''b''], requests = []\<rparr>"
  have h1: "?search (index ?s) ((\<lambda>qs. ()) [''q'']) 3 = (Inr ([1, 2, 3] # [], [1, 5, 0] # []), ())"
    by simp
  have h2: "length [1::nat, 2, 3] = length [1::int, 5, 0]" by simp
  have h3: "fst (retrieve_texts ''q'' 3 ?search (\<lambda>qs. ()) ?s) = Inr ([''b'', ''a''], [[1, 2, 3]])"
    by (simp add: retrieve_texts_def py_getitem_def)
  have h4: "\<exists>i\<in>set [1::int, 5, 0]. \<not> i < int (length (token_split_texts ?s))" by simp
  from retrieve_texts_distances_unfiltered [where search = ?search and encode = "\<lambda>qs. ()",
      OF h1 h2 h3] h3 h4
  show ?thesis by simp
qed

subsection \<open>What \<^verbatim>\<open>answer_query\<close> computes\<close>

lemma retrieve_texts_requests:
  "requests (snd (retrieve_texts query k search encode s)) = requests s"
  by (simp add: retrieve_texts_store)

lemma answer_query_Inl:
  assumes "fst (retrieve_texts query k search encode s) = Inl e"
  shows "answer_query encode create query k search groq_api_key s =
           (Inl e, snd (retrieve_texts query k search encode s))"
  using assms by (cases "retrieve_texts query k search encode s") (simp add: answer_query_def)

lemma answer_query_Inr:
  assumes "fst (retrieve_texts query k search encode s) = Inr (chunks, ds)"
  shows "answer_query encode create query k search groq_api_key s =
           (case choices (create groq_api_key
                    \<lparr>messages = [\<lparr>role = ''system'', content = prompt (context_block chunks) query\<rparr>],
                     model = ''llama-3.3-70b-versatile''\<rparr>) of
              [] \<Rightarrow> Inl IndexError
            | c # _ \<Rightarrow> Inr (content (message c)),
            (snd (retrieve_texts query k search encode s))
              \<lparr>requests := requests s @
                 [\<lparr>messages = [\<lparr>role = ''system'', content = prompt (context_block chunks) query\<rparr>],
                   model = ''llama-3.3-70b-versatile''\<rparr>]\<rparr>)"
proof (cases "retrieve_texts query k search encode s")
  case (Pair r s')
  with assms have r: "r = Inr (chunks, ds)" by simp
  from Pair have "requests s' = requests s"
    using retrieve_texts_requests [of query k search encode s] by simp
  with Pair r show ?thesis
    by (simp add: answer_query_def Let_def split: list.splits)
qed

lemma join_Cons: "join sep (x # xs) = x @ concat (map (\<lambda>y. sep @ y) xs)"
  by (induction xs arbitrary: x) simp_all

lemma prompt_inject: "prompt c1 query = prompt c2 query \<longleftrightarrow> c1 = c2"
  by (simp add: prompt_def)

subsection \<open>The context block\<close>

text \<open>
  Claim C4. When retrieval returns the chunks \<open>c\<^sub>1, \<dots>, c\<^sub>n\<close>, the one message
  \<^verbatim>\<open>answer_query\<close> sends has as content the prompt built from the context block of these
  chunks; the context block is \<open>c\<^sub>1\<close> followed by each further chunk in order, each
  preceded by two newline characters (empty when there is no chunk); and the prompt
  determines the context block, so nothing else was put in its place.
\<close>

theorem answer_query_context:
  assumes "fst (retrieve_texts query k search encode s) = Inr (chunks, ds)"
  shows "map (\<lambda>r. map content (messages r))
           (requests (snd (answer_query encode create query k search groq_api_key s))) =
         map (\<lambda>r. map content (messages r)) (requests s) @
           [[prompt (context_block chunks) query]] \<and>
         context_block chunks =
           (case chunks of
              [] \<Rightarrow> []
            | c # cs \<Rightarrow> c @ concat (map (\<lambda>x. [CHR 0x0A, CHR 0x0A] @ x) cs)) \<and>
         (\<forall>other. prompt other query = prompt (context_block chunks) query \<longrightarrow>
                  other = context_block chunks)"
proof (intro conjI)
  show "map (\<lambda>r. map content (messages r))
           (requests (snd (answer_query encode create query k search groq_api_key s))) =
         map (\<lambda>r. map content (messages r)) (requests s) @
           [[prompt (context_block chunks) query]]"
    by (simp add: answer_query_Inr [OF assms])
  show "context_block chunks =
          (case chunks of [] \<Rightarrow> [] | c # cs \<Rightarrow> c @ concat (map (\<lambda>x. [CHR 0x0A, CHR 0x0A] @ x) cs))"
  proof (cases chunks)
    case Nil
    then show ?thesis by (simp add: context_block_def)
  next
    case (Cons c cs)
    show ?thesis unfolding Cons context_block_def list.case by (rule join_Cons)
  qed
  show "\<forall>other. prompt other query = prompt (context_block chunks) query \<longrightarrow>
          other = context_block chunks"
    by (simp add: prompt_inject)
qed

theorem answer_query_context_witness:
  "fst (retrieve_texts ''q'' 3 (\<lambda>idx v k. (Inr ([[1::nat, 2, 3]], [[1, 5, 0]]), idx)) (\<lambda>qs. ())
         \<lparr>index = (), token_split_texts = [''a'', ''b''], requests = []\<rparr>)
     = Inr ([''b'', ''a''], [[1, 2, 3]]) \<and>
   map (\<lambda>r. map content (messages r))
     (requests (snd (answer_query (\<lambda>qs. ())
        (\<lambda>key req. \<lparr>choices = [\<lparr>message = \<lparr>role = ''assistant'', content = ''ok''\<rparr>\<rparr>]\<rparr>)
        ''q'' 3 (\<lambda>idx v k. (Inr ([[1::nat, 2, 3]], [[1, 5, 0]]), idx)) ''key''
        \<lparr>index = (), token_split_texts = [''a'', ''b''], requests = []\<rparr>)))
     = [[prompt (''b'' @ [CHR 0x0A, CHR 0x0A] @ ''a'') ''q'']]"
proof -
  let ?search = "\<lambda>(idx::unit) (v::unit) (k::int). (Inr ([[1::nat, 2, 3]], [[1::int, 5, 0]]) :: error + _, idx)"
  let ?create = "\<lambda>(key::string) (req::chat_request).
                   \<lparr>choices = [\<lparr>message = \<lparr>role = ''assistant'', content = ''ok''\<rparr>\<rparr>]\<rparr>"
  let ?s = "\<lparr>index = (), token_split_texts = [''a'', ''b''], requests = []\<rparr>"
  have h1: "fst (retrieve_texts ''q'' 3 ?search (\<lambda>qs. ()) ?s) = Inr ([''b'', ''a''], [[1, 2, 3]])"
    by (simp add: retrieve_texts_def py_getitem_def)
  from answer_query_context [where create = ?create and groq_api_key = "''key''", OF h1]
  have "map (\<lambda>r. map content (messages r))
          (requests (snd (answer_query (\<lambda>qs. ()) ?create ''q'' 3 ?search ''key'' ?s))) =
        map (\<lambda>r. map content (messages r)) (requests ?s) @
          [[prompt (context_block [''b'', ''a'']) ''q'']]"
    by blast
  with h1 show ?thesis by (simp add: context_block_def)
qed

subsection \<open>The answer\<close>

text \<open>
  Claim C5. When retrieval returns and the remote service answers the submitted request
  with a non-empty list of choices, \<^verbatim>\<open>answer_query\<close> returns the content of the first
  choice's message, unchanged.
\<close>

theorem answer_query_first_choice:
  assumes "fst (retrieve_texts query k search encode s) = Inr (chunks, ds)"
      and "choices (create groq_api_key
              \<lparr>messages = [\<lparr>role = ''system'', content = prompt (context_block chunks) query\<rparr>],
               model = ''llama-3.3-70b-versatile''\<rparr>) = c # cs"
  shows "fst (answer_query encode create query k search groq_api_key s) = Inr (content (message c))"
  by (simp add: answer_query_Inr [OF assms(1)] assms(2))

theorem answer_query_first_choice_witness:
  "fst (answer_query (\<lambda>qs. ())
        (\<lambda>key req. \<lparr>choices = [\<lparr>message = \<lparr>role = ''assistant'', content = ''ok''\<rparr>\<rparr>,
                                \<lparr>message = \<lparr>role = ''assistant'', content = ''no''\<rparr>\<rparr>]\<rparr>)
        ''q'' 3 (\<lambda>idx v k. (Inr ([[1::nat, 2, 3]], [[1, 5, 0]]), idx)) ''key''
        \<lparr>index = (), token_split_texts = [''a'', ''b''], requests = []\<rparr>)
     = Inr ''ok''"
proof -
  let ?search = "\<lambda>(idx::unit) (v::unit) (k::int). (Inr ([[1::nat, 2, 3]], [[1::int, 5, 0]]) :: error + _, idx)"
  let ?create = "\<lambda>(key::string) (req::chat_request).
                   \<lparr>choices = [\<lparr>message = \<lparr>role = ''assistant'', content = ''ok''\<rparr>\<rparr>,
                               \<lparr>message = \<lparr>role = ''assistant'', content = ''no''\<rparr>\<rparr>]\<rparr>"
  let ?s = "\<lparr>index = (), token_split_texts = [''a'', ''b''], requests = []\<rparr>"
  have h1: "fst (retrieve_texts ''q'' 3 ?search (\<lambda>qs. ()) ?s) = Inr ([''b'', ''a''], [[1, 2, 3]])"
    by (simp add: retrieve_texts_def py_getitem_def)
  have h2: "choices (?create ''key''
              \<lparr>messages = [\<lparr>role = ''system'',
                             content = prompt (context_block [''b'', ''a'']) ''q''\<rparr>],
               model = ''llama-3.3-70b-versatile''\<rparr>)
            = \<lparr>message = \<lparr>role = ''assistant'', content = ''ok''\<rparr>\<rparr> #
              [\<lparr>message = \<lparr>role = ''assistant'', content = ''no''\<rparr>\<rparr>]"
    by simp
  from answer_query_first_choice [where create = ?create, OF h1 h2] show ?thesis by simp
qed

text \<open>
  Claim C6. When retrieval returns and the remote service answers the submitted request
  with no choices, \<^verbatim>\<open>answer_query\<close> raises \<^verbatim>\<open>IndexError\<close>; it returns no answer.
\<close>

theorem answer_query_zero_choices:
  assumes "fst (retrieve_texts query k search encode s) = Inr (chunks, ds)"
      and "choices (create groq_api_key
              \<lparr>messages = [\<lparr>role = ''system'', content = prompt (context_block chunks) query\<rparr>],
               model = ''llama-3.3-70b-versatile''\<rparr>) = []"
  shows "fst (answer_query encode create query k search groq_api_key s) = Inl IndexError \<and>
         (\<forall>answer. fst (answer_query encode create query k search groq_api_key s) \<noteq> Inr answer)"
  by (simp add: answer_query_Inr [OF assms(1)] assms(2))

theorem answer_query_zero_choices_witness:
  "fst (answer_query (\<lambda>qs. ()) (\<lambda>key req. \<lparr>choices = []\<rparr>)
        ''q'' 3 (\<lambda>idx v k. (Inr ([[1::nat, 2, 3]], [[1, 5, 0]]), idx)) ''key''
        \<lparr>index = (), token_split_texts = [''a'', ''b''], requests = []\<rparr>)
     = Inl IndexError"
proof -
  let ?search = "\<lambda>(idx::unit) (v::unit) (k::int). (Inr ([[1::nat, 2, 3]], [[1::int, 5, 0]]) :: error + _, idx)"
  let ?create = "\<lambda>(key::string) (req::chat_request). \<lparr>choices = []\<rparr>"
  let ?s = "\<lparr>index = (), token_split_texts = [''a'', ''b''], requests = []\<rparr>"
  have h1: "fst (retrieve_texts ''q'' 3 ?search (\<lambda>qs. ()) ?s) = Inr ([''b'', ''a''], [[1, 2, 3]])"
    by (simp add: retrieve_texts_def py_getitem_def)
  have h2: "choices (?create ''key''
              \<lparr>messages = [\<lparr>role = ''system'',
                             content = prompt (context_block [''b'', ''a'']) ''q''\<rparr>],
               model = ''llama-3.3-70b-versatile''\<rparr>) = []"
    by simp
  from answer_query_zero_choices [where create = ?create, OF h1 h2] show ?thesis by simp
qed

subsection \<open>The request\<close>

text \<open>
  Claim C8. When retrieval returns, \<^verbatim>\<open>answer_query\<close> sends exactly one request to the
  remote service. The request carries exactly one message, with role \<^verbatim>\<open>system\<close>, whose
  content is the fixed template with the context block and the query substituted in, and
  the model identifier \<^verbatim>\<open>llama-3.3-70b-versatile\<close>; the value \<^verbatim>\<open>answer_query\<close>
  produces is read from the service's answer to that request.
\<close>

theorem answer_query_request:
  assumes "fst (retrieve_texts query k search encode s) = Inr (chunks, ds)"
  shows "requests (snd (answer_query encode create query k search groq_api_key s)) =
           requests s @
             [\<lparr>messages =
                 [\<lparr>role = ''system'',
                   content =
                     ''Answer the following question using the provided context. Explain it as if you are explaining it to a 5 year old.'' @
                     [CHR 0x0A, CHR 0x0A] @ ''Context:'' @ [CHR 0x0A] @
                     join [CHR 0x0A, CHR 0x0A] chunks @ [CHR 0x0A, CHR 0x0A] @
                     ''Question: '' @ query @ [CHR 0x0A] @ ''Answer:''\<rparr>],
               model = ''llama-3.3-70b-versatile''\<rparr>] \<and>
         fst (answer_query encode create query k search groq_api_key s) =
           (case choices (create groq_api_key
                   \<lparr>messages =
                      [\<lparr>role = ''system'',
                        content =
                          ''Answer the following question using the provided context. Explain it as if you are explaining it to a 5 year old.'' @
                          [CHR 0x0A, CHR 0x0A] @ ''Context:'' @ [CHR 0x0A] @
                          join [CHR 0x0A, CHR 0x0A] chunks @ [CHR 0x0A, CHR 0x0A] @
                          ''Question: '' @ query @ [CHR 0x0A] @ ''Answer:''\<rparr>],
                    model = ''llama-3.3-70b-versatile''\<rparr>) of
              [] \<Rightarrow> Inl IndexError
            | c # _ \<Rightarrow> Inr (content (message c)))"
  by (simp add: answer_query_Inr [OF assms] prompt_def context_block_def)

theorem answer_query_request_witness:
  "requests (snd (answer_query (\<lambda>qs. ())
        (\<lambda>key req. \<lparr>choices = [\<lparr>message = \<lparr>role = ''assistant'', content = ''ok''\<rparr>\<rparr>]\<rparr>)
        ''q'' 3 (\<lambda>idx v k. (Inr ([[1::nat, 2, 3]], [[1, 5, 0]]), idx)) ''key''
        \<lparr>index = (), token_split_texts = [''a'', ''b''], requests = []\<rparr>))
     = [\<lparr>messages =
          [\<lparr>role = ''system'',
            content =
              ''Answer the following question using the provided context. Explain it as if you are explaining it to a 5 year old.'' @
              [CHR 0x0A, CHR 0x0A] @ ''Context:'' @ [CHR 0x0A] @
              ''b'' @ [CHR 0x0A, CHR 0x0A] @ ''a'' @ [CHR 0x0A, CHR 0x0A] @
              ''Question: q'' @ [CHR 0x0A] @ ''Answer:''\<rparr>],
         model = ''llama-3.3-70b-versatile''\<rparr>]"
proof -
  let ?search = "\<lambda>(idx::unit) (v::unit) (k::int). (Inr ([[1::nat, 2, 3]], [[1::int, 5, 0]]) :: error + _, idx)"
  let ?create = "\<lambda>(key::string) (req::chat_request).
                   \<lparr>choices = [\<lparr>message = \<lparr>role = ''assistant'', content = ''ok''\<rparr>\<rparr>]\<rparr>"
  let ?s = "\<lparr>index = (), token_split_texts = [''a'', ''b''], requests = []\<rparr>"
  have h1: "fst (retrieve_texts ''q'' 3 ?search (\<lambda>qs. ()) ?s) = Inr ([''b'', ''a''], [[1, 2, 3]])"
    by (simp add: retrieve_texts_def py_getitem_def)
  from answer_query_request [where create = ?create and groq_api_key = "''key''", OF h1]
  show ?thesis by simp
qed

subsection \<open>The index and the chunk collection are only read\<close>

text \<open>
  Claim C9. The only statement of either function that touches the index is the search
  call, and no statement writes to the chunk collection. So when the search call leaves
  the index as it found it, the index and the chunk collection are the same after
  \<^verbatim>\<open>retrieve_texts\<close> and after \<^verbatim>\<open>answer_query\<close> as before, whether the call returns
  or raises.
\<close>

theorem store_unchanged:
  assumes "snd (search (index s) (encode [query]) k) = index s"
  shows "index (snd (retrieve_texts query k search encode s)) = index s \<and>
         token_split_texts (snd (retrieve_texts query k search encode s)) = token_split_texts s \<and>
         index (snd (answer_query encode create query k search groq_api_key s)) = index s \<and>
         token_split_texts (snd (answer_query encode create query k search groq_api_key s)) =
           token_split_texts s"
proof -
  have r: "snd (retrieve_texts query k search encode s) = s"
    using assms by (simp add: retrieve_texts_store)
  have a: "index (snd (answer_query encode create query k search groq_api_key s)) = index s \<and>
         token_split_texts (snd (answer_query encode create query k search groq_api_key s)) =
           token_split_texts s"
  proof (cases "fst (retrieve_texts query k search encode s)")
    case (Inl e)
    then show ?thesis by (simp add: answer_query_Inl r)
  next
    case (Inr p)
    then obtain chunks ds where "fst (retrieve_texts query k search encode s) = Inr (chunks, ds)"
      by (cases p) simp
    then show ?thesis by (simp add: answer_query_Inr r)
  qed
  from r a show ?thesis by simp
qed

theorem store_unchanged_witness:
  "index (snd (retrieve_texts ''q'' 3 (\<lambda>idx v k. (Inr ([[1::nat, 2, 3]], [[1, 5, 0]]), idx))
        (\<lambda>qs. ())
        \<lparr>index = (7::nat), token_split_texts = [''a'', ''b''], requests = []\<rparr>)) = 7 \<and>
   token_split_texts (snd (retrieve_texts ''q'' 3
        (\<lambda>idx v k. (Inr ([[1::nat, 2, 3]], [[1, 5, 0]]), idx)) (\<lambda>qs. ())
        \<lparr>index = (7::nat), token_split_texts = [''a'', ''b''], requests = []\<rparr>)) = [''a'', ''b''] \<and>
   index (snd (answer_query (\<lambda>qs. ())
        (\<lambda>key req. \<lparr>choices = [\<lparr>message = \<lparr>role = ''assistant'', content = ''ok''\<rparr>\<rparr>]\<rparr>)
        ''q'' 3 (\<lambda>idx v k. (Inr ([[1::nat, 2, 3]], [[1, 5, 0]]), idx)) ''key''
        \<lparr>index = (7::nat), token_split_texts = [''a'', ''b''], requests = []\<rparr>)) = 7 \<and>
   token_split_texts (snd (answer_query (\<lambda>qs. ())
        (\<lambda>key req. \<lparr>choices = [\<lparr>message = \<lparr>role = ''assistant'', content = ''ok''\<rparr>\<rparr>]\<rparr>)
        ''q'' 3 (\<lambda>idx v k. (Inr ([[1::nat, 2, 3]], [[1, 5, 0]]), idx)) ''key''
        \<lparr>index = (7::nat), token_split_texts = [''a'', ''b''], requests = []\<rparr>)) = [''a'', ''b'']"
proof -
  let ?search = "\<lambda>(idx::nat) (v::unit) (k::int). (Inr ([[1::nat, 2, 3]], [[1::int, 5, 0]]) :: error + _, idx)"
  let ?create = "\<lambda>(key::string) (req::chat_request).
                   \<lparr>choices = [\<lparr>message = \<lparr>role = ''assistant'', content = ''ok''\<rparr>\<rparr>]\<rparr>"
  let ?s = "\<lparr>index = (7::nat), token_split_texts = [''a'', ''b''], requests = []\<rparr>"
  have h1: "snd (?search (index ?s) ((\<lambda>qs. ()) [''q'']) 3) = index ?s" by simp
  have s: "index ?s = 7" "token_split_texts ?s = [''a'', ''b'']" by simp_all
  from store_unchanged [where search = ?search and encode = "\<lambda>qs. ()" and create = ?create
      and groq_api_key = "''key''" and query = "''q''" and k = 3 and s = ?s, OF h1]
  show ?thesis unfolding s .
qed

end
